theory Spec2Isabelle
  imports Complex_Main
begin

section \<open>Data model\<close>

text \<open>
  A box is one row \<open>(x1, y1, x2, y2)\<close> of a tensor of shape \<open>[..., 4]\<close>. Tensors of
  rank one and two are lists and lists of rows; the batch axis is the outer list.
  Finite floating-point numbers are modelled by exact reals (no rounding, no overflow).
\<close>

datatype box = Box (bx1: real) (by1: real) (bx2: real) (by2: real)

text \<open>
  The value of a floating-point division can be infinite or not a number. \<open>fl\<close> keeps
  these special values apart from the other ones; \<open>fsub\<close> and \<open>fdiv\<close> follow IEEE 754
  on them (the zero divisor is the positive zero that a difference of equal numbers
  yields). On other operands they give the exact difference and the exact quotient under
  \<open>Fin\<close>: the rounding of \<open>float32\<close>, and the overflow that turns a large quotient
  into an infinity, are not modelled. So \<open>Fin\<close> says which number the formula yields, and
  nothing here says that the code's \<open>float32\<close> result is finite.
\<close>

datatype fl = Fin real | PInf | NInf | NaN

fun fsub :: "fl \<Rightarrow> fl \<Rightarrow> fl" where
  "fsub NaN y = NaN"
| "fsub x NaN = NaN"
| "fsub (Fin a) (Fin b) = Fin (a - b)"
| "fsub (Fin a) PInf = NInf"
| "fsub (Fin a) NInf = PInf"
| "fsub PInf PInf = NaN"
| "fsub PInf y = PInf"
| "fsub NInf NInf = NaN"
| "fsub NInf y = NInf"

fun fdiv :: "fl \<Rightarrow> fl \<Rightarrow> fl" where
  "fdiv NaN y = NaN"
| "fdiv x NaN = NaN"
| "fdiv (Fin a) (Fin b) =
     (if b = 0 then (if a = 0 then NaN else if 0 < a then PInf else NInf)
      else Fin (a / b))"
| "fdiv (Fin a) y = Fin 0"
| "fdiv PInf (Fin b) = (if 0 \<le> b then PInf else NInf)"
| "fdiv NInf (Fin b) = (if 0 \<le> b then NInf else PInf)"
| "fdiv x y = NaN"

text \<open>The outcomes of a division by zero.\<close>

fun inf_or_nan :: "fl \<Rightarrow> bool" where
  "inf_or_nan (Fin a) = False"
| "inf_or_nan x = True"

text \<open>
  TensorFlow rejects an operation on tensors whose shapes or indices do not fit with an
  \<open>InvalidArgumentError\<close>; it is the only error the code under study can raise. The
  model reports as this error, too, the inputs outside the shapes of the docstrings that
  it does not cover: an empty batch, and an axis of size one that would be broadcast.
\<close>

datatype error = InvalidArgumentError

type_synonym 'a result = "error + 'a"

definition bind_r :: "'a result \<Rightarrow> ('a \<Rightarrow> 'b result) \<Rightarrow> 'b result" where
  "bind_r m f = (case m of Inl e \<Rightarrow> Inl e | Inr x \<Rightarrow> f x)"

text \<open>The results of a list of fallible steps: the first error wins.\<close>

fun collect :: "'a result list \<Rightarrow> 'a list result" where
  "collect [] = Inr []"
| "collect (r # rs) = bind_r r (\<lambda>x. bind_r (collect rs) (\<lambda>xs. Inr (x # xs)))"

section \<open>Tensor operations\<close>

definition gather :: "'a list \<Rightarrow> nat \<Rightarrow> 'a result" where
  "gather xs i = (if i < length xs then Inr (xs ! i) else Inl InvalidArgumentError)"

text \<open>
  \<open>tf.gather_nd\<close> of a tensor of rank at least two with a list of index pairs
  \<open>[b, j]\<close>; an index out of range is an error (the CPU kernel).
\<close>

definition gather_nd :: "'a list list \<Rightarrow> (nat \<times> nat) list \<Rightarrow> 'a list result" where
  "gather_nd t idx = collect (map (\<lambda>(b, j). bind_r (gather t b) (\<lambda>row. gather row j)) idx)"

fun chunk_rows :: "nat \<Rightarrow> nat \<Rightarrow> 'a list \<Rightarrow> 'a list list" where
  "chunk_rows 0 n xs = []"
| "chunk_rows (Suc b) n xs = take n xs # chunk_rows b n (drop n xs)"

text \<open>
  \<open>tf.reshape(t, [b, -1])\<close> of a flat tensor (trailing axes of fixed size stay inside the
  elements): the missing size is the number of elements divided by \<open>b\<close>. The model covers
  a first dimension \<open>b\<close> of at least one that divides the number of elements, and reports
  every other case as an error.
\<close>

definition reshape :: "nat \<Rightarrow> 'a list \<Rightarrow> 'a list list result" where
  "reshape b xs =
     (if b = 0 \<or> length xs mod b \<noteq> 0 then Inl InvalidArgumentError
      else Inr (chunk_rows b (length xs div b) xs))"

text \<open>
  \<open>tf.argmax\<close> along an axis: the index of the first maximum; an empty axis is an error.
  \<open>tf.reduce_max\<close> is only reached on the rows \<open>tf.argmax\<close> has accepted.
\<close>

fun first_max :: "real list \<Rightarrow> nat" where
  "first_max [] = 0"
| "first_max (x # xs) = (if \<forall>y \<in> set xs. y \<le> x then 0 else Suc (first_max xs))"

definition argmax :: "real list \<Rightarrow> nat result" where
  "argmax xs = (if xs = [] then Inl InvalidArgumentError else Inr (first_max xs))"

definition reduce_max :: "real list \<Rightarrow> real" where
  "reduce_max xs = Max (set xs)"

definition one_hot :: "int \<Rightarrow> nat \<Rightarrow> real list" where
  "one_hot l depth = map (\<lambda>i. if int i = l then 1 else 0) [0..<depth]"

section \<open>AnchorGenerator\<close>

record AnchorGenerator =
  size_g :: real
  stride_g :: int
  aspect_ratios_g :: "real list"
  anchor_scales_g :: "real list"
  anchors_g :: "box list"

definition len :: "AnchorGenerator \<Rightarrow> nat" where
  "len self = length (aspect_ratios_g self) * length (anchor_scales_g self)"

text \<open>
  \<open>_generate\<close>: row \<open>i\<close> of the anchor array takes scale \<open>i mod |scales|\<close> (the tiled
  scales) and ratio \<open>i div |scales|\<close> (the repeated ratios); columns 2 and 3 hold width and
  height before the last two statements turn the row into corners around the origin.
\<close>

definition generate :: "real \<Rightarrow> real list \<Rightarrow> real list \<Rightarrow> box list" where
  "generate sz ratios scales =
     (let num_anchors = length ratios * length scales
      in map (\<lambda>i.
           let scale = scales ! (i mod length scales);
               ratio = ratios ! (i div length scales);
               w0 = sz * scale;
               h0 = sz * scale;
               areas = w0 * h0;
               w = sqrt (areas / ratio);
               h = w * ratio
           in Box (0 - w * 0.5) (0 - h * 0.5) (w - w * 0.5) (h - h * 0.5))
         [0..<num_anchors])"

definition AnchorGenerator_init :: "real \<Rightarrow> real list \<Rightarrow> int \<Rightarrow> AnchorGenerator" where
  "AnchorGenerator_init sz aspect_ratios stride =
     (let anchor_scales = [2 ^ 0, 2 powr (1 / 3), 2 powr (2 / 3)]
      in \<lparr> size_g = sz, stride_g = stride, aspect_ratios_g = aspect_ratios,
           anchor_scales_g = anchor_scales,
           anchors_g = generate sz aspect_ratios anchor_scales \<rparr>)"

definition box_add :: "box \<Rightarrow> box \<Rightarrow> box" where
  "box_add a s = Box (bx1 a + bx1 s) (by1 a + by1 s) (bx2 a + bx2 s) (by2 a + by2 s)"

text \<open>
  \<open>tf.meshgrid\<close> (indexing \<open>xy\<close>) of \<open>w\<close> abscissas and \<open>h\<close> ordinates gives two
  \<open>[h, w]\<close> tensors, the first repeating the abscissas in every row and the second
  holding one ordinate per row; reshaping to \<open>[-1]\<close> concatenates the rows. The reshape of
  the canonical anchors to \<open>[1, A, 4]\<close> needs exactly \<open>A\<close> of them.
\<close>

definition tile_anchors_over_feature_map ::
    "AnchorGenerator \<Rightarrow> nat \<times> nat \<times> nat \<Rightarrow> box list result" where
  "tile_anchors_over_feature_map self feature_map_shape =
     (case feature_map_shape of (h, w, c) \<Rightarrow>
        let arange = (\<lambda>limit. map real [0..<limit]);
            shift_x = map (\<lambda>v. (v + 0.5) * real_of_int (stride_g self)) (arange w);
            shift_y = map (\<lambda>v. (v + 0.5) * real_of_int (stride_g self)) (arange h);
            mesh_x = replicate h shift_x;
            mesh_y = map (\<lambda>y. replicate w y) shift_y;
            shift_x = concat mesh_x;
            shift_y = concat mesh_y;
            shifts = map (\<lambda>(x, y). Box x y x y) (zip shift_x shift_y);
            A = len self
        in if length (anchors_g self) \<noteq> A then Inl InvalidArgumentError
           else Inr (concat (map (\<lambda>s. map (\<lambda>a. box_add a s) (anchors_g self)) shifts)))"

section \<open>Ground-truth matching\<close>

text \<open>
  \<open>bndbox.bbox_overlap\<close> is not part of the sources at hand. It enters as the parameter
  \<open>bbox_overlap\<close>, the overlap of one anchor with one annotation; the tensor of shape
  \<open>[B, N, M]\<close> holds it for every anchor and every annotation of each batch entry.

  The area test reads \<open>max_overlap_boxes\<close>, which is gathered from the tiled anchors at
  the pairs \<open>[b, argmax]\<close>.
\<close>

definition compute_gt_annotations ::
    "(box \<Rightarrow> box \<Rightarrow> real) \<Rightarrow> box list \<Rightarrow> box list list \<Rightarrow> real \<Rightarrow> real
     \<Rightarrow> (bool list list \<times> bool list list \<times> (nat \<times> nat) list) result" where
  "compute_gt_annotations bbox_overlap anchors annotations negative_overlap positive_overlap =
     (let batch_size = length annotations;
          tiled = replicate batch_size anchors;
          overlaps = map2 (\<lambda>as gts. map (\<lambda>a. map (bbox_overlap a) gts) as) tiled annotations
      in bind_r (collect (map (\<lambda>rows. collect (map argmax rows)) overlaps))
        (\<lambda>argmax_overlaps_inds.
      let max_overlaps = map (map reduce_max) overlaps;
          batched_indices =
            concat (map (\<lambda>(b, js). map (\<lambda>j. (b, j)) js)
                        (zip [0..<batch_size] argmax_overlaps_inds))
      in bind_r (gather_nd tiled batched_indices) (\<lambda>boxes.
         bind_r (reshape batch_size boxes) (\<lambda>max_overlap_boxes.
      let widths = map (map (\<lambda>b. bx2 b - bx1 b)) max_overlap_boxes;
          heights = map (map (\<lambda>b. by2 b - by1 b)) max_overlap_boxes;
          areas = map2 (map2 (*)) widths heights;
          small_areas = map (map (\<lambda>a. a < 1)) areas;
          large_areas = map (map Not) small_areas;
          positive_indices = map (map (\<lambda>m. positive_overlap \<le> m)) max_overlaps;
          positive_indices = map2 (map2 (\<and>)) positive_indices large_areas;
          ignore_indices = map (map (\<lambda>m. negative_overlap < m)) max_overlaps;
          ignore_indices = map2 (map2 (\<and>)) ignore_indices (map (map Not) positive_indices);
          ignore_indices = map2 (map2 (\<or>)) ignore_indices small_areas
      in Inr (positive_indices, ignore_indices, batched_indices)))))"

text \<open>
  Modelled from the spec: the pairwise overlap that the absent \<open>bndbox.bbox_overlap\<close>
  computes (ComputeIoU): intersection over union, and zero when the union is empty. It is
  used to run the matcher on concrete boxes.
\<close>

definition box_area :: "box \<Rightarrow> real" where
  "box_area a = (bx2 a - bx1 a) * (by2 a - by1 a)"

definition iou :: "box \<Rightarrow> box \<Rightarrow> real" where
  "iou a b =
     (let intersection = max 0 (min (bx2 a) (bx2 b) - max (bx1 a) (bx1 b))
                         * max 0 (min (by2 a) (by2 b) - max (by1 a) (by1 b));
          union = box_area a + box_area b - intersection
      in if union = 0 then 0 else intersection / union)"

section \<open>Regression targets\<close>

text \<open>The body of \<open>bbox_transform\<close> at one anchor and the box gathered for it.\<close>

definition bbox_transform1 :: "box \<Rightarrow> box \<Rightarrow> fl list" where
  "bbox_transform1 a g =
     (let mean = [Fin 0, Fin 0, Fin 0, Fin 0];
          std = [Fin 0.2, Fin 0.2, Fin 0.2, Fin 0.2];
          anchor_widths = bx2 a - bx1 a;
          anchor_heights = by2 a - by1 a;
          targets_dx1 = fdiv (Fin (bx1 g - bx1 a)) (Fin anchor_widths);
          targets_dy1 = fdiv (Fin (by1 g - by1 a)) (Fin anchor_heights);
          targets_dx2 = fdiv (Fin (bx2 g - bx2 a)) (Fin anchor_widths);
          targets_dy2 = fdiv (Fin (by2 g - by2 a)) (Fin anchor_heights);
          targets = [targets_dx1, targets_dy1, targets_dx2, targets_dy2]
      in map (\<lambda>(t, m, s). fdiv (fsub t m) s) (zip targets (zip mean std)))"

text \<open>
  Anchors of shape \<open>[N, 4]\<close> against boxes of shape \<open>[B, N, 4]\<close>: every batch entry
  needs one box per anchor (broadcasting of an axis of size one is left out of the model).
\<close>

definition bbox_transform :: "box list \<Rightarrow> box list list \<Rightarrow> fl list list list result" where
  "bbox_transform anchors gt_boxes =
     (if \<forall>row \<in> set gt_boxes. length row = length anchors
      then Inr (map (\<lambda>row. map2 bbox_transform1 anchors row) gt_boxes)
      else Inl InvalidArgumentError)"

section \<open>Target encoding\<close>

text \<open>
  \<open>anchor_targets_bbox\<close> is a sequence of commented blocks; each block is a definition
  here, and \<open>anchor_targets_bbox\<close> runs them in the order of the source.

  Add padded instances to ignore indices: the labels are gathered at the pairs of the
  matcher and reshaped to \<open>[batch_size, -1]\<close>, where \<open>batch_size\<close> is the first
  dimension of \<open>images\<close>. The elementwise operations on the masks of the matcher and the
  reshaped labels need equal shapes (broadcasting of an axis of size one is left out of
  the model).
\<close>

definition demote_padding ::
    "int list list \<Rightarrow> nat \<Rightarrow> int \<Rightarrow> bool list list \<Rightarrow> bool list list \<Rightarrow> (nat \<times> nat) list
     \<Rightarrow> (bool list list \<times> bool list list \<times> int list list) result" where
  "demote_padding labels batch_size padding_value positive_indices ignore_indices
       argmax_overlaps_inds =
     bind_r (gather_nd labels argmax_overlaps_inds) (\<lambda>chose_labels.
     bind_r (reshape batch_size chose_labels) (\<lambda>chose_labels.
     let no_padding_mask = map (map (\<lambda>l. l \<noteq> padding_value)) chose_labels
     in if map length positive_indices \<noteq> map length no_padding_mask
           \<or> map length ignore_indices \<noteq> map length no_padding_mask
        then Inl InvalidArgumentError
        else
     let positive_indices = map2 (map2 (\<and>)) positive_indices no_padding_mask;
         ignore_indices = map2 (map2 (\<or>)) ignore_indices (map (map Not) no_padding_mask)
     in Inr (positive_indices, ignore_indices, chose_labels)))"

text \<open>
  Expand ignore indices with out of image anchors: the mask of shape \<open>[N]\<close> is combined
  with every row of the ignore mask.
\<close>

definition expand_out_of_image ::
    "box list \<Rightarrow> nat \<Rightarrow> nat \<Rightarrow> bool list list \<Rightarrow> bool list list result" where
  "expand_out_of_image anchors image_h image_w ignore_indices =
     (let x_anchor_centre = map (\<lambda>a. (bx1 a + bx2 a) / 2) anchors;
          y_anchor_centre = map (\<lambda>a. (by1 a + by2 a) / 2) anchors;
          out_x = map (\<lambda>c. real image_w \<le> c) x_anchor_centre;
          out_y = map (\<lambda>c. real image_h \<le> c) y_anchor_centre;
          out_mask = map2 (\<or>) out_x out_y
      in if \<forall>row \<in> set ignore_indices. length row = length out_mask
         then Inr (map (\<lambda>row. map2 (\<or>) row out_mask) ignore_indices)
         else Inl InvalidArgumentError)"

text \<open>
  Labels per anchor, the regression of every anchor against the box gathered for it, the
  extra state label, and the two concatenations. The masks and the labels have one shape
  by the blocks before.
\<close>

definition anchor_targets_bbox ::
    "(box \<Rightarrow> box \<Rightarrow> real) \<Rightarrow> box list \<Rightarrow> nat \<times> nat \<times> nat \<times> nat \<Rightarrow> box list list
     \<Rightarrow> int list list \<Rightarrow> nat \<Rightarrow> int \<Rightarrow> real \<Rightarrow> real
     \<Rightarrow> (fl list list list \<times> real list list list) result" where
  "anchor_targets_bbox bbox_overlap anchors images bndboxes labels num_classes padding_value
       negative_overlap positive_overlap =
     (case images of (batch_size, image_h, image_w, image_c) \<Rightarrow>
      bind_r (compute_gt_annotations bbox_overlap anchors bndboxes
                negative_overlap positive_overlap)
        (\<lambda>(positive_indices, ignore_indices, argmax_overlaps_inds).
      bind_r (demote_padding labels batch_size padding_value positive_indices ignore_indices
                argmax_overlaps_inds)
        (\<lambda>(positive_indices, ignore_indices, chose_labels).
      bind_r (expand_out_of_image anchors image_h image_w ignore_indices)
        (\<lambda>ignore_indices.
      let labels_per_anchor =
            map2 (map2 (\<lambda>p l. if p then l else 0)) positive_indices chose_labels;
          labels_per_anchor =
            map2 (map2 (\<lambda>i l. if i then - 1 else l)) ignore_indices labels_per_anchor;
          labels_per_anchor = map (map (\<lambda>l. one_hot l num_classes)) labels_per_anchor
      in bind_r (gather_nd bndboxes argmax_overlaps_inds) (\<lambda>chose_bndboxes.
         bind_r (reshape batch_size chose_bndboxes) (\<lambda>chose_bndboxes.
         bind_r (bbox_transform anchors chose_bndboxes) (\<lambda>regression_per_anchor.
      let indices = map (map (\<lambda>p. if p then (1::real) else 0)) positive_indices;
          indices = map2 (map2 (\<lambda>i s. if i then - 1 else s)) ignore_indices indices;
          labels_per_anchor = map2 (map2 (\<lambda>row s. row @ [s])) labels_per_anchor indices;
          regression_per_anchor =
            map2 (map2 (\<lambda>row s. row @ [Fin s])) regression_per_anchor indices
      in Inr (regression_per_anchor, labels_per_anchor))))))))"

text \<open>
  The matcher reads two numbers off the row of overlaps of one anchor with the annotations
  of one batch entry: the index \<open>tf.argmax\<close> picks and the value of \<open>tf.reduce_max\<close>.
\<close>

definition matched_index :: "(box \<Rightarrow> box \<Rightarrow> real) \<Rightarrow> box \<Rightarrow> box list \<Rightarrow> nat" where
  "matched_index bbox_overlap a gts = first_max (map (bbox_overlap a) gts)"

definition max_iou :: "(box \<Rightarrow> box \<Rightarrow> real) \<Rightarrow> box \<Rightarrow> box list \<Rightarrow> real" where
  "max_iou bbox_overlap a gts = reduce_max (map (bbox_overlap a) gts)"


section \<open>Results of fallible steps and flat tensors\<close>

lemma bind_r_Inr_iff: "bind_r m f = Inr y \<longleftrightarrow> (\<exists>x. m = Inr x \<and> f x = Inr y)"
  by (cases m) (simp_all add: bind_r_def)

lemma collect_Inr_iff: "collect rs = Inr xs \<longleftrightarrow> rs = map Inr xs"
proof (induction rs arbitrary: xs)
  case Nil
  show ?case by auto
next
  case (Cons r rs)
  show ?case by (cases xs) (auto simp add: bind_r_Inr_iff Cons.IH)
qed

lemma collect_map_Inr:
  assumes "collect (map f xs) = Inr ys"
  shows "length ys = length xs" and "i < length xs \<Longrightarrow> f (xs ! i) = Inr (ys ! i)"
proof -
  from assms have eq: "map f xs = map Inr ys" by (simp add: collect_Inr_iff)
  then show len: "length ys = length xs" by (metis length_map)
  assume "i < length xs"
  with eq len show "f (xs ! i) = Inr (ys ! i)" by (metis nth_map)
qed

lemma gather_Inr_iff: "gather xs i = Inr y \<longleftrightarrow> i < length xs \<and> y = xs ! i"
  by (auto simp add: gather_def)

lemma gather_nd_Inr:
  assumes "gather_nd t idx = Inr ys"
  shows "length ys = length idx"
    and "k < length idx \<Longrightarrow> fst (idx ! k) < length t \<and> snd (idx ! k) < length (t ! fst (idx ! k))
           \<and> ys ! k = t ! fst (idx ! k) ! snd (idx ! k)"
proof -
  show "length ys = length idx"
    using collect_map_Inr(1) [OF assms [unfolded gather_nd_def]] .
  assume "k < length idx"
  from collect_map_Inr(2) [OF assms [unfolded gather_nd_def] this]
  show "fst (idx ! k) < length t \<and> snd (idx ! k) < length (t ! fst (idx ! k))
           \<and> ys ! k = t ! fst (idx ! k) ! snd (idx ! k)"
    by (auto simp add: case_prod_beta bind_r_Inr_iff gather_Inr_iff)
qed

lemma length_chunk_rows: "length (chunk_rows b n xs) = b"
  by (induction b arbitrary: xs) simp_all

lemma chunk_rows_nth:
  "b * n \<le> length xs \<Longrightarrow> i < b \<Longrightarrow>
   length (chunk_rows b n xs ! i) = n \<and> (\<forall>k<n. chunk_rows b n xs ! i ! k = xs ! (i * n + k))"
proof (induction b arbitrary: xs i)
  case 0
  then show ?case by simp
next
  case (Suc b)
  show ?case
  proof (cases i)
    case 0
    with Suc.prems show ?thesis by simp
  next
    case (Suc i')
    from Suc.prems have "b * n \<le> length (drop n xs)" by simp
    moreover from Suc Suc.prems have "i' < b" by simp
    ultimately have "length (chunk_rows b n (drop n xs) ! i') = n \<and>
        (\<forall>k<n. chunk_rows b n (drop n xs) ! i' ! k = drop n xs ! (i' * n + k))"
      by (rule Suc.IH)
    moreover have "n \<le> length xs" using Suc.prems by simp
    ultimately show ?thesis using Suc by (simp add: add.commute add.left_commute)
  qed
qed

lemma reshape_Inr:
  assumes "reshape b xs = Inr rows" and "length xs = b * r"
  shows "0 < b" and "length rows = b"
    and "i < b \<Longrightarrow> length (rows ! i) = r"
    and "i < b \<Longrightarrow> k < r \<Longrightarrow> rows ! i ! k = xs ! (i * r + k)"
proof -
  from assms(1) have b: "b \<noteq> 0" and rows: "rows = chunk_rows b (length xs div b) xs"
    by (auto simp add: reshape_def split: if_splits)
  from b assms(2) have r: "length xs div b = r" by simp
  show "0 < b" using b by simp
  show "length rows = b" by (simp add: rows length_chunk_rows)
  assume i: "i < b"
  have le: "b * r \<le> length xs" using assms(2) by simp
  from chunk_rows_nth [OF le i] show "length (rows ! i) = r" by (simp add: rows r)
  assume "k < r"
  with chunk_rows_nth [OF le i] show "rows ! i ! k = xs ! (i * r + k)" by (simp add: rows r)
qed

lemma first_max_less: "xs \<noteq> [] \<Longrightarrow> first_max xs < length xs"
  by (induction xs) (auto dest: length_pos_if_in_set)

lemma length_concat_uniform:
  "(\<forall>xs \<in> set xss. length xs = n) \<Longrightarrow> length (concat xss) = length xss * n"
  by (induction xss) simp_all

lemma nth_concat_uniform:
  "(\<forall>xs \<in> set xss. length xs = n) \<Longrightarrow> i < length xss \<Longrightarrow> k < n \<Longrightarrow>
   concat xss ! (i * n + k) = xss ! i ! k"
proof (induction xss arbitrary: i)
  case Nil
  then show ?case by simp
next
  case (Cons xs xss)
  show ?case
  proof (cases i)
    case 0
    with Cons.prems show ?thesis by (simp add: nth_append)
  next
    case (Suc i')
    with Cons.prems have "concat xss ! (i' * n + k) = xss ! i' ! k"
      by (intro Cons.IH) simp_all
    with Suc Cons.prems show ?thesis by (simp add: nth_append)
  qed
qed

lemma compute_gt_annotations_Inr:
  assumes res: "compute_gt_annotations ov anchors annotations neg pos = Inr (P, I, idx)"
  shows "0 < length annotations"
    and "length P = length annotations" and "length I = length annotations"
    and "length idx = length annotations * length anchors"
    and "b < length annotations \<Longrightarrow> length (P ! b) = length anchors \<and> length (I ! b) = length anchors"
    and "b < length annotations \<Longrightarrow> n < length anchors \<Longrightarrow>
         annotations ! b \<noteq> []
         \<and> matched_index ov (anchors ! n) (annotations ! b) < length anchors
         \<and> idx ! (b * length anchors + n) = (b, matched_index ov (anchors ! n) (annotations ! b))
         \<and> P ! b ! n = (pos \<le> max_iou ov (anchors ! n) (annotations ! b)
              \<and> \<not> box_area (anchors ! matched_index ov (anchors ! n) (annotations ! b)) < 1)
         \<and> I ! b ! n = (neg < max_iou ov (anchors ! n) (annotations ! b) \<and> \<not> P ! b ! n
              \<or> box_area (anchors ! matched_index ov (anchors ! n) (annotations ! b)) < 1)"
proof -
  define B where "B = length annotations"
  define N where "N = length anchors"
  define overlaps where
    "overlaps = map (\<lambda>gts. map (\<lambda>a. map (ov a) gts) anchors) annotations"
  have ov_eq: "map2 (\<lambda>as gts. map (\<lambda>a. map (ov a) gts) as) (replicate B anchors) annotations
      = overlaps"
    unfolding overlaps_def B_def by (rule nth_equalityI) simp_all
  from res obtain ami boxes mob where
    ami: "collect (map (\<lambda>rows. collect (map argmax rows)) overlaps) = Inr ami"
    and boxes: "gather_nd (replicate B anchors)
        (concat (map (\<lambda>(b, js). map (\<lambda>j. (b, j)) js) (zip [0..<B] ami))) = Inr boxes"
    and mob: "reshape B boxes = Inr mob"
    and P: "P = map2 (map2 (\<and>)) (map (map (\<lambda>m. pos \<le> m)) (map (map reduce_max) overlaps))
          (map (map Not) (map (map (\<lambda>a. a < 1))
            (map2 (map2 (*)) (map (map (\<lambda>b. bx2 b - bx1 b)) mob)
                             (map (map (\<lambda>b. by2 b - by1 b)) mob))))"
    and I: "I = map2 (map2 (\<or>))
          (map2 (map2 (\<and>)) (map (map (\<lambda>m. neg < m)) (map (map reduce_max) overlaps))
             (map (map Not) P))
          (map (map (\<lambda>a. a < 1))
            (map2 (map2 (*)) (map (map (\<lambda>b. bx2 b - bx1 b)) mob)
                             (map (map (\<lambda>b. by2 b - by1 b)) mob)))"
    and idx: "idx = concat (map (\<lambda>(b, js). map (\<lambda>j. (b, j)) js) (zip [0..<B] ami))"
    unfolding compute_gt_annotations_def Let_def B_def [symmetric] ov_eq
    by (auto simp add: bind_r_Inr_iff)
  have len_ami: "length ami = B"
    using collect_map_Inr(1) [OF ami] by (simp add: overlaps_def B_def)
  have row_ami: "collect (map argmax (overlaps ! b)) = Inr (ami ! b)" if "b < B" for b
    using collect_map_Inr(2) [OF ami, of b] that by (simp add: overlaps_def B_def)
  have len_row: "length (ami ! b) = N" if "b < B" for b
    using collect_map_Inr(1) [OF row_ami [OF that]] that by (simp add: overlaps_def B_def N_def)
  have am: "annotations ! b \<noteq> [] \<and> ami ! b ! n = matched_index ov (anchors ! n) (annotations ! b)"
    if "b < B" "n < N" for b n
    using collect_map_Inr(2) [OF row_ami [OF that(1)], of n] that
    by (auto simp add: overlaps_def B_def N_def argmax_def matched_index_def split: if_splits)
  let ?rows = "map (\<lambda>(b, js). map (\<lambda>j. (b, j)) js) (zip [0..<B] ami)"
  have uni: "\<forall>r \<in> set ?rows. length r = N"
    using len_row len_ami by (auto simp add: set_zip)
  have len_idx: "length idx = B * N"
    unfolding idx using length_concat_uniform [OF uni] len_ami by simp
  have idx_nth: "idx ! (b * N + n) = (b, ami ! b ! n)" if "b < B" "n < N" for b n
    unfolding idx using nth_concat_uniform [OF uni, of b n] that len_ami len_row [OF that(1)]
    by simp
  have len_boxes: "length boxes = B * N"
    using gather_nd_Inr(1) [OF boxes] len_idx by (simp add: idx)
  have box_nth: "ami ! b ! n < N \<and> boxes ! (b * N + n) = anchors ! (ami ! b ! n)"
    if "b < B" "n < N" for b n
  proof -
    have "b * N + n < B * N"
    proof -
      have "b * N + n < b * N + N" using that by simp
      also have "\<dots> = Suc b * N" by simp
      also have "\<dots> \<le> B * N" using that by (intro mult_le_mono1) simp
      finally show ?thesis .
    qed
    then have "b * N + n < length idx" by (simp add: len_idx)
    from gather_nd_Inr(2) [OF boxes this [unfolded idx]] idx_nth [OF that] that
    show ?thesis by (simp add: idx [symmetric] N_def)
  qed
  have B_pos: "0 < B" and len_mob: "length mob = B"
    and len_mob_row: "\<And>b. b < B \<Longrightarrow> length (mob ! b) = N"
    and mob_nth: "\<And>b n. b < B \<Longrightarrow> n < N \<Longrightarrow> mob ! b ! n = boxes ! (b * N + n)"
    using reshape_Inr [OF mob len_boxes] by blast+
  have len_ov: "length overlaps = B" and len_ov_row: "\<And>b. b < B \<Longrightarrow> length (overlaps ! b) = N"
    by (simp_all add: overlaps_def B_def N_def)
  show "0 < length annotations" using B_pos by (simp add: B_def)
  show lenP: "length P = length annotations" by (simp add: P len_ov len_mob B_def [symmetric])
  show lenI: "length I = length annotations"
    using lenP by (simp add: I len_ov len_mob B_def [symmetric])
  show "length idx = length annotations * length anchors"
    using len_idx by (simp add: B_def N_def)
  have lenPb: "length (P ! b) = N" if "b < B" for b
    using that len_ov_row [OF that] len_mob_row [OF that] by (simp add: P len_ov len_mob)
  have lenIb: "length (I ! b) = N" if "b < B" for b
    using that len_ov_row [OF that] len_mob_row [OF that] lenPb [OF that] lenP
    by (simp add: I len_ov len_mob B_def [symmetric])
  show "length (P ! b) = length anchors \<and> length (I ! b) = length anchors"
    if "b < length annotations" for b
    using lenPb [of b] lenIb [of b] that by (simp add: B_def N_def)
  show "annotations ! b \<noteq> []
         \<and> matched_index ov (anchors ! n) (annotations ! b) < length anchors
         \<and> idx ! (b * length anchors + n) = (b, matched_index ov (anchors ! n) (annotations ! b))
         \<and> P ! b ! n = (pos \<le> max_iou ov (anchors ! n) (annotations ! b)
              \<and> \<not> box_area (anchors ! matched_index ov (anchors ! n) (annotations ! b)) < 1)
         \<and> I ! b ! n = (neg < max_iou ov (anchors ! n) (annotations ! b) \<and> \<not> P ! b ! n
              \<or> box_area (anchors ! matched_index ov (anchors ! n) (annotations ! b)) < 1)"
    if "b < length annotations" "n < length anchors" for b n
  proof -
    from that have b: "b < B" and n: "n < N" by (simp_all add: B_def N_def)
    note facts = am [OF b n] idx_nth [OF b n] box_nth [OF b n] mob_nth [OF b n]
      len_ov_row [OF b] len_mob_row [OF b] lenPb [OF b]
    have ovn: "overlaps ! b ! n = map (ov (anchors ! n)) (annotations ! b)"
      using that by (simp add: overlaps_def)
    have Pn: "P ! b ! n = (pos \<le> max_iou ov (anchors ! n) (annotations ! b)
              \<and> \<not> box_area (anchors ! matched_index ov (anchors ! n) (annotations ! b)) < 1)"
      using b n facts by (simp add: P len_ov len_mob ovn max_iou_def box_area_def)
    have In: "I ! b ! n = (neg < max_iou ov (anchors ! n) (annotations ! b) \<and> \<not> P ! b ! n
              \<or> box_area (anchors ! matched_index ov (anchors ! n) (annotations ! b)) < 1)"
      using b n facts lenP
      by (simp add: I len_ov len_mob ovn max_iou_def box_area_def B_def [symmetric])
    from facts Pn In show ?thesis by (simp add: N_def)
  qed
qed

section \<open>The blocks of the target encoder\<close>

lemma demote_padding_Inr:
  assumes res: "demote_padding labels bs pad P I idx = Inr (P', I', L)"
    and lenP: "length P = B" and rowP0: "\<forall>b<B. length (P ! b) = N"
    and len_idx: "length idx = B * N"
  shows "bs = B"
    and "length P' = B" and "length I' = B" and "length L = B" and "length I = B"
    and "b < B \<Longrightarrow> length (P' ! b) = N \<and> length (I' ! b) = N \<and> length (L ! b) = N
           \<and> length (I ! b) = N"
    and "b < B \<Longrightarrow> n < N \<Longrightarrow>
         fst (idx ! (b * N + n)) < length labels
         \<and> snd (idx ! (b * N + n)) < length (labels ! fst (idx ! (b * N + n)))
         \<and> L ! b ! n = labels ! fst (idx ! (b * N + n)) ! snd (idx ! (b * N + n))
         \<and> P' ! b ! n = (P ! b ! n \<and> L ! b ! n \<noteq> pad)
         \<and> I' ! b ! n = (I ! b ! n \<or> \<not> L ! b ! n \<noteq> pad)"
proof -
  have rowP: "length (P ! b) = N" if "b < B" for b using rowP0 that by simp
  from res obtain flat where
    flat: "gather_nd labels idx = Inr flat"
    and L: "reshape bs flat = Inr L"
    and shP: "map length P = map length (map (map (\<lambda>l. l \<noteq> pad)) L)"
    and shI: "map length I = map length (map (map (\<lambda>l. l \<noteq> pad)) L)"
    and P': "P' = map2 (map2 (\<and>)) P (map (map (\<lambda>l. l \<noteq> pad)) L)"
    and I': "I' = map2 (map2 (\<or>)) I (map (map Not) (map (map (\<lambda>l. l \<noteq> pad)) L))"
    unfolding demote_padding_def Let_def
    by (auto simp add: bind_r_Inr_iff split: if_splits)
  have len_flat: "length flat = B * N"
    using gather_nd_Inr(1) [OF flat] len_idx by simp
  have lenL0: "length L = bs"
    using L by (auto simp add: reshape_def length_chunk_rows split: if_splits)
  have "length P = length L" using shP by (metis length_map)
  with lenP lenL0 show bsB: "bs = B" by simp
  have lenL: "length L = B" using lenL0 bsB by simp
  have lenI: "length I = B" using shI lenL by (metis length_map)
  have rowL: "length (L ! b) = N" if "b < B" for b
    using reshape_Inr(3) [OF L [unfolded bsB] len_flat that] .
  have rowI: "length (I ! b) = N" if "b < B" for b
  proof -
    have "map length I ! b = map length (map (map (\<lambda>l. l \<noteq> pad)) L) ! b" using shI by simp
    with that lenI lenL rowL [OF that] show ?thesis by simp
  qed
  show "length P' = B" by (simp add: P' lenP lenL)
  show "length I' = B" by (simp add: I' lenI lenL)
  show "length L = B" by (rule lenL)
  show "length I = B" by (rule lenI)
  show "length (P' ! b) = N \<and> length (I' ! b) = N \<and> length (L ! b) = N \<and> length (I ! b) = N"
    if "b < B" for b
    using that rowL [OF that] rowI [OF that] rowP [OF that]
    by (simp add: P' I' lenP lenI lenL)
  show "fst (idx ! (b * N + n)) < length labels
         \<and> snd (idx ! (b * N + n)) < length (labels ! fst (idx ! (b * N + n)))
         \<and> L ! b ! n = labels ! fst (idx ! (b * N + n)) ! snd (idx ! (b * N + n))
         \<and> P' ! b ! n = (P ! b ! n \<and> L ! b ! n \<noteq> pad)
         \<and> I' ! b ! n = (I ! b ! n \<or> \<not> L ! b ! n \<noteq> pad)"
    if "b < B" "n < N" for b n
  proof -
    have "b * N + n < B * N"
    proof -
      have "b * N + n < b * N + N" using that by simp
      also have "\<dots> = Suc b * N" by simp
      also have "\<dots> \<le> B * N" using that by (intro mult_le_mono1) simp
      finally show ?thesis .
    qed
    then have k: "b * N + n < length idx" by (simp add: len_idx)
    have Ln: "L ! b ! n = flat ! (b * N + n)"
      using reshape_Inr(4) [OF L [unfolded bsB] len_flat that] .
    from gather_nd_Inr(2) [OF flat k] Ln that rowL [OF that(1)] rowI [OF that(1)]
      rowP [OF that(1)]
    show ?thesis by (simp add: P' I' lenP lenI lenL)
  qed
qed

lemma expand_out_of_image_Inr:
  assumes res: "expand_out_of_image anchors h w I = Inr I2"
  shows "length I2 = length I"
    and "b < length I \<Longrightarrow> length (I ! b) = length anchors \<and> length (I2 ! b) = length anchors"
    and "b < length I \<Longrightarrow> n < length anchors \<Longrightarrow>
         I2 ! b ! n = (I ! b ! n \<or> real w \<le> (bx1 (anchors ! n) + bx2 (anchors ! n)) / 2
                        \<or> real h \<le> (by1 (anchors ! n) + by2 (anchors ! n)) / 2)"
proof -
  from res have rows: "\<forall>row \<in> set I. length row = length anchors"
    and I2: "I2 = map (\<lambda>row. map2 (\<or>) row
        (map2 (\<or>) (map (\<lambda>c. real w \<le> c) (map (\<lambda>a. (bx1 a + bx2 a) / 2) anchors))
                   (map (\<lambda>c. real h \<le> c) (map (\<lambda>a. (by1 a + by2 a) / 2) anchors)))) I"
    unfolding expand_out_of_image_def Let_def by (auto split: if_splits)
  show "length I2 = length I" by (simp add: I2)
  show "length (I ! b) = length anchors \<and> length (I2 ! b) = length anchors" if "b < length I" for b
    using that rows by (simp add: I2)
  show "I2 ! b ! n = (I ! b ! n \<or> real w \<le> (bx1 (anchors ! n) + bx2 (anchors ! n)) / 2
                        \<or> real h \<le> (by1 (anchors ! n) + by2 (anchors ! n)) / 2)"
    if "b < length I" "n < length anchors" for b n
    using that rows by (simp add: I2)
qed

lemma anchor_targets_bbox_stages:
  assumes "anchor_targets_bbox ov anchors (bs, h, w, c) bndboxes labels C pad neg pos
           = Inr (reg, cls)"
  shows "\<exists>P I idx P' I' L I2.
           compute_gt_annotations ov anchors bndboxes neg pos = Inr (P, I, idx)
           \<and> demote_padding labels bs pad P I idx = Inr (P', I', L)
           \<and> expand_out_of_image anchors h w I' = Inr I2"
  using assms unfolding anchor_targets_bbox_def
  by (auto simp add: bind_r_Inr_iff)

lemma anchor_targets_bbox_Inr:
  assumes at: "anchor_targets_bbox ov anchors (bs, h, w, c) bndboxes labels C pad neg pos
           = Inr (reg, cls)"
    and cg: "compute_gt_annotations ov anchors bndboxes neg pos = Inr (P, I, idx)"
    and dp: "demote_padding labels bs pad P I idx = Inr (P', I', L)"
    and ex: "expand_out_of_image anchors h w I' = Inr I2"
    and b: "b < length bndboxes" and n: "n < length anchors"
  shows "cls ! b ! n =
           one_hot (if I2 ! b ! n then - 1 else if P' ! b ! n then L ! b ! n else 0) C
           @ [if I2 ! b ! n then - 1 else if P' ! b ! n then 1 else 0]"
    and "reg ! b ! n =
           bbox_transform1 (anchors ! n)
             (bndboxes ! b ! matched_index ov (anchors ! n) (bndboxes ! b))
           @ [Fin (if I2 ! b ! n then - 1 else if P' ! b ! n then 1 else 0)]"
    and "L ! b ! n = labels ! b ! matched_index ov (anchors ! n) (bndboxes ! b)"
proof -
  define B where "B = length bndboxes"
  define N where "N = length anchors"
  note g = compute_gt_annotations_Inr [OF cg, folded B_def N_def]
  have rowP: "\<forall>b<B. length (P ! b) = N" using g(5) by simp
  note d = demote_padding_Inr [OF dp g(2) rowP g(4)]
  note e = expand_out_of_image_Inr [OF ex, unfolded d(3), folded N_def]
  from at cg dp ex obtain flat boxes r where
    flat: "gather_nd bndboxes idx = Inr flat"
    and boxes: "reshape bs flat = Inr boxes"
    and r: "bbox_transform anchors boxes = Inr r"
    and reg: "reg = map2 (map2 (\<lambda>row s. row @ [Fin s])) r
        (map2 (map2 (\<lambda>i s. if i then - 1 else s)) I2
           (map (map (\<lambda>p. if p then (1::real) else 0)) P'))"
    and cls: "cls = map2 (map2 (\<lambda>row s. row @ [s]))
        (map (map (\<lambda>l. one_hot l C))
          (map2 (map2 (\<lambda>i l. if i then - 1 else l)) I2
             (map2 (map2 (\<lambda>p l. if p then l else 0)) P' L)))
        (map2 (map2 (\<lambda>i s. if i then - 1 else s)) I2
           (map (map (\<lambda>p. if p then (1::real) else 0)) P'))"
    unfolding anchor_targets_bbox_def Let_def
    by (auto simp add: bind_r_Inr_iff)
  from b n have bB: "b < B" and nN: "n < N" by (simp_all add: B_def N_def)
  note gn = g(6) [OF bB nN]
  note dn = d(7) [OF bB nN]
  note lens = d(6) [OF bB] e(2) [OF bB]
  have len_flat: "length flat = B * N"
    using gather_nd_Inr(1) [OF flat] g(4) by simp
  have len_boxes: "length boxes = B" and row_boxes: "\<And>b. b < B \<Longrightarrow> length (boxes ! b) = N"
    and boxes_nth: "\<And>b n. b < B \<Longrightarrow> n < N \<Longrightarrow> boxes ! b ! n = flat ! (b * N + n)"
    using reshape_Inr [OF boxes [unfolded d(1)] len_flat] by blast+
  have "b * N + n < B * N"
  proof -
    have "b * N + n < b * N + N" using nN by simp
    also have "\<dots> = Suc b * N" by simp
    also have "\<dots> \<le> B * N" using bB by (intro mult_le_mono1) simp
    finally show ?thesis .
  qed
  then have k: "b * N + n < length idx" by (simp add: g(4))
  have box: "boxes ! b ! n = bndboxes ! b ! matched_index ov (anchors ! n) (bndboxes ! b)"
    using gather_nd_Inr(2) [OF flat k] boxes_nth [OF bB nN] gn by simp
  have shape: "\<forall>row \<in> set boxes. length row = length anchors"
    using row_boxes len_boxes by (auto simp add: in_set_conv_nth N_def)
  have len_r: "length r = B" and row_r: "length (r ! b) = N"
    and rn: "r ! b ! n = bbox_transform1 (anchors ! n) (boxes ! b ! n)"
    using r shape bB nN len_boxes row_boxes [OF bB]
    by (auto simp add: bbox_transform_def N_def)
  show "cls ! b ! n =
           one_hot (if I2 ! b ! n then - 1 else if P' ! b ! n then L ! b ! n else 0) C
           @ [if I2 ! b ! n then - 1 else if P' ! b ! n then 1 else 0]"
    using bB nN lens by (simp add: cls d(2,3,4) e(1))
  show "reg ! b ! n =
           bbox_transform1 (anchors ! n)
             (bndboxes ! b ! matched_index ov (anchors ! n) (bndboxes ! b))
           @ [Fin (if I2 ! b ! n then - 1 else if P' ! b ! n then 1 else 0)]"
    using bB nN lens len_r row_r rn box by (simp add: reg d(2,3,4) e(1))
  show "L ! b ! n = labels ! b ! matched_index ov (anchors ! n) (bndboxes ! b)"
    using dn gn by simp
qed

section \<open>Regression and tiling\<close>

lemma bbox_transform1_positive:
  assumes "0 < bx2 a - bx1 a" and "0 < by2 a - by1 a"
  shows "bbox_transform1 a g =
           [Fin (((bx1 g - bx1 a) / (bx2 a - bx1 a) - 0) / 0.2),
            Fin (((by1 g - by1 a) / (by2 a - by1 a) - 0) / 0.2),
            Fin (((bx2 g - bx2 a) / (bx2 a - bx1 a) - 0) / 0.2),
            Fin (((by2 g - by2 a) / (by2 a - by1 a) - 0) / 0.2)]"
  using assms by (simp add: bbox_transform1_def Let_def)

lemma bbox_transform_nth:
  assumes "\<forall>row \<in> set gt_boxes. length row = length anchors"
    and "b < length gt_boxes" and "n < length anchors"
  shows "bbox_transform anchors gt_boxes = Inr r \<Longrightarrow>
         r ! b ! n = bbox_transform1 (anchors ! n) (gt_boxes ! b ! n)"
  using assms by (auto simp add: bbox_transform_def)

lemma bbox_transform_total:
  "(\<forall>row \<in> set gt_boxes. length row = length anchors) \<Longrightarrow>
   \<exists>r. bbox_transform anchors gt_boxes = Inr r"
  by (simp add: bbox_transform_def)

lemma bbox_transform1_zero_width:
  assumes "bx2 a - bx1 a = 0"
  shows "inf_or_nan (bbox_transform1 a g ! 0)" and "inf_or_nan (bbox_transform1 a g ! 2)"
  using assms by (simp_all add: bbox_transform1_def Let_def)

lemma bbox_transform1_zero_height:
  assumes "by2 a - by1 a = 0"
  shows "inf_or_nan (bbox_transform1 a g ! 1)" and "inf_or_nan (bbox_transform1 a g ! 3)"
  using assms by (simp_all add: bbox_transform1_def Let_def numeral_3_eq_3)

lemma len_init: "len (AnchorGenerator_init sz rs st) = length rs * 3"
  by (simp add: len_def AnchorGenerator_init_def Let_def)

lemma length_anchors_init:
  "length (anchors_g (AnchorGenerator_init sz rs st)) = length rs * 3"
  by (simp add: AnchorGenerator_init_def generate_def Let_def)

lemma tile_closed:
  assumes "length (anchors_g self) = len self"
  shows "tile_anchors_over_feature_map self (h, w, c) =
         Inr (concat (map (\<lambda>s. map (\<lambda>a. box_add a s) (anchors_g self))
               (concat (map (\<lambda>row. map (\<lambda>col.
                  Box ((real col + 0.5) * real_of_int (stride_g self))
                      ((real row + 0.5) * real_of_int (stride_g self))
                      ((real col + 0.5) * real_of_int (stride_g self))
                      ((real row + 0.5) * real_of_int (stride_g self))) [0..<w]) [0..<h]))))"
proof -
  have z: "zip (concat (replicate h (map f [0..<w]))) (concat (map (\<lambda>y. replicate w (g y)) [0..<h]))
        = concat (map (\<lambda>row. map (\<lambda>col. (f col, g row)) [0..<w]) [0..<h])"
    for f g :: "nat \<Rightarrow> real"
  proof (induction h)
    case 0
    show ?case by simp
  next
    case (Suc h)
    have l: "length (concat (replicate h (map f [0..<w]))) = length (concat (map (\<lambda>y. replicate w (g y)) [0..<h]))"
      by (simp add: length_concat_uniform [where n = w])
    have r: "zip (map f [0..<w]) (replicate w (g h)) = map (\<lambda>col. (f col, g h)) [0..<w]"
      by (rule nth_equalityI) simp_all
    have c: "concat (replicate (Suc h) xs) = concat (replicate h xs) @ xs" for xs :: "real list"
      by (induction h) simp_all
    have "zip (concat (replicate (Suc h) (map f [0..<w])))
              (concat (map (\<lambda>y. replicate w (g y)) [0..<Suc h]))
        = zip (concat (replicate h (map f [0..<w])) @ map f [0..<w])
              (concat (map (\<lambda>y. replicate w (g y)) [0..<h]) @ replicate w (g h))"
      by (simp only: c) simp
    also have "\<dots> = zip (concat (replicate h (map f [0..<w])))
                         (concat (map (\<lambda>y. replicate w (g y)) [0..<h]))
                    @ zip (map f [0..<w]) (replicate w (g h))"
      using l by (rule zip_append)
    finally show ?case
      using Suc r by simp
  qed
  show ?thesis
    using assms
    by (simp add: tile_anchors_over_feature_map_def Let_def z map_concat comp_def)
qed

text \<open>One canonical anchor of the level of size 32: ratio 1 at scale 1.\<close>

lemma canonical_anchor_example:
  "anchors_g (AnchorGenerator_init 32 [0.5, 1, 2] 8) ! 3 = Box (- 16) (- 16) 16 16"
proof -
  have sq: "sqrt 1024 = 32" by (rule real_sqrt_unique) simp_all
  have g: "anchors_g (AnchorGenerator_init 32 [0.5, 1, 2] 8)
      = generate 32 [0.5, 1, 2] [1, 2 powr (1 / 3), 2 powr (2 / 3)]"
    by (simp add: AnchorGenerator_init_def Let_def)
  have u: "[0..<9] ! 3 = (3::nat)" by simp
  have "generate 32 [0.5, 1, 2] [1, 2 powr (1 / 3), 2 powr (2 / 3)] ! 3
      = Box (- 16) (- 16) 16 16"
    unfolding generate_def Let_def
    by (simp add: sq nth_Cons' del: upt_Suc)
  with g show ?thesis by simp
qed

section \<open>Auxiliary facts about rows and masks\<close>

lemma one_hot_negative: "l < 0 \<Longrightarrow> one_hot l C = replicate C 0"
  by (rule nth_equalityI) (auto simp add: one_hot_def)

lemma length_one_hot: "length (one_hot l C) = C"
  by (simp add: one_hot_def)

lemma length_bbox_transform1: "length (bbox_transform1 a g) = 4"
  by (simp add: bbox_transform1_def Let_def)

text \<open>
  The comparisons of the matcher at the thresholds, read off the masks it returns: an
  anchor whose area test passes is positive when its largest overlap equals
  \<open>positive_overlap\<close>, and is in neither mask when its largest overlap equals
  \<open>negative_overlap\<close> and it is not positive. The box under the area test is the one the
  matcher gathers, \<open>anchors ! matched_index\<close>.
\<close>

lemma match_boundaries:
  assumes "compute_gt_annotations ov anchors annotations neg pos = Inr (P, I, idx)"
    and "b < length annotations" and "n < length anchors"
    and "\<not> box_area (anchors ! matched_index ov (anchors ! n) (annotations ! b)) < 1"
  shows "(max_iou ov (anchors ! n) (annotations ! b) = pos \<longrightarrow> P ! b ! n)
         \<and> (max_iou ov (anchors ! n) (annotations ! b) = neg \<and> \<not> P ! b ! n
            \<longrightarrow> \<not> I ! b ! n)"
  using compute_gt_annotations_Inr(6) [OF assms(1-3)] assms(4) by auto

text \<open>
  The class row of an anchor by its final state: zero for an ignored anchor, the one-hot
  row of the matched label for a positive one, and the one-hot row of label 0 otherwise.
\<close>

lemma class_row_by_state:
  assumes "anchor_targets_bbox ov anchors (bs, h, w, c) bndboxes labels C pad neg pos
           = Inr (reg, cls)"
    and "compute_gt_annotations ov anchors bndboxes neg pos = Inr (P, I, idx)"
    and "demote_padding labels bs pad P I idx = Inr (P', I', L)"
    and "expand_out_of_image anchors h w I' = Inr I2"
    and "b < length bndboxes" and "n < length anchors"
  shows "take C (cls ! b ! n) =
           (if I2 ! b ! n then replicate C 0
            else if P' ! b ! n then one_hot (L ! b ! n) C else one_hot 0 C)"
  using anchor_targets_bbox_Inr(1) [OF assms]
  by (simp add: one_hot_negative length_one_hot)

section \<open>Claims about the regression encoding\<close>

text \<open>
  C5. For every anchor of positive width \<open>w\<close> and height \<open>h\<close> and every ground-truth box,
  \<open>bbox_transform\<close> returns, at the position of that anchor, the four offsets
  \<open>(gt.x1 - x1) / w\<close>, \<open>(gt.y1 - y1) / h\<close>, \<open>(gt.x2 - x2) / w\<close>, \<open>(gt.y2 - y2) / h\<close>,
  each minus the mean 0 and divided by the standard deviation 0.2. The witness is the
  scenario of the anchor \<open>(0, 0, 10, 10)\<close> and the box \<open>(1, 1, 9, 9)\<close>, whose target is
  \<open>(0.5, 0.5, -0.5, -0.5)\<close>.
\<close>

theorem bbox_transform_formula:
  assumes "\<forall>row \<in> set gt_boxes. length row = length anchors"
    and "b < length gt_boxes" and "n < length anchors"
    and "0 < bx2 (anchors ! n) - bx1 (anchors ! n)"
    and "0 < by2 (anchors ! n) - by1 (anchors ! n)"
  shows "\<exists>r. bbox_transform anchors gt_boxes = Inr r \<and>
           r ! b ! n =
             (let a = anchors ! n; g = gt_boxes ! b ! n;
                  w = bx2 a - bx1 a; h = by2 a - by1 a
              in [Fin (((bx1 g - bx1 a) / w - 0) / 0.2),
                  Fin (((by1 g - by1 a) / h - 0) / 0.2),
                  Fin (((bx2 g - bx2 a) / w - 0) / 0.2),
                  Fin (((by2 g - by2 a) / h - 0) / 0.2)])"
proof -
  from assms(1) obtain r where r: "bbox_transform anchors gt_boxes = Inr r"
    by (simp add: bbox_transform_def)
  have "r ! b ! n = bbox_transform1 (anchors ! n) (gt_boxes ! b ! n)"
    using bbox_transform_nth [OF assms(1-3) r] .
  with r show ?thesis
    using bbox_transform1_positive [OF assms(4,5)] by (simp add: Let_def)
qed

theorem bbox_transform_formula_witness:
  "\<exists>r. bbox_transform [Box 0 0 10 10] [[Box 1 1 9 9]] = Inr r \<and>
        r ! 0 ! 0 = [Fin 0.5, Fin 0.5, Fin (- 0.5), Fin (- 0.5)]"
  using bbox_transform_formula [of "[[Box 1 1 9 9]]" "[Box 0 0 10 10]" 0 0]
  by (simp add: Let_def)

section \<open>Claims about the tiling\<close>

text \<open>
  C8. For every feature-map shape \<open>(H, W)\<close>, also an empty one, and every generator built
  from a list of aspect ratios, with \<open>A = |aspect_ratios| * 3\<close> canonical anchors,
  \<open>tile_anchors_over_feature_map\<close> returns exactly \<open>H * W * A\<close> boxes, and the box at
  index \<open>s * A + k\<close>, for the shift \<open>s = row * W + col\<close> and the canonical index \<open>k\<close>, has
  the coordinates of canonical anchor \<open>k\<close> with \<open>(col + 0.5) * stride\<close> added to \<open>x1\<close> and
  \<open>x2\<close> and \<open>(row + 0.5) * stride\<close> added to \<open>y1\<close> and \<open>y2\<close>.
\<close>

theorem tile_anchors_layout:
  "\<exists>boxes.
     tile_anchors_over_feature_map (AnchorGenerator_init sz aspect_ratios stride) (H, W, C)
       = Inr boxes
     \<and> length boxes = H * W * (length aspect_ratios * 3)
     \<and> (\<forall>row<H. \<forall>col<W. \<forall>k<length aspect_ratios * 3.
          boxes ! ((row * W + col) * (length aspect_ratios * 3) + k) =
            (let a = anchors_g (AnchorGenerator_init sz aspect_ratios stride) ! k;
                 sx = (real col + 0.5) * real_of_int stride;
                 sy = (real row + 0.5) * real_of_int stride
             in Box (bx1 a + sx) (by1 a + sy) (bx2 a + sx) (by2 a + sy)))"
proof -
  define g where "g = AnchorGenerator_init sz aspect_ratios stride"
  define A where "A = length aspect_ratios * 3"
  define shift where "shift = (\<lambda>row col.
     Box ((real col + 0.5) * real_of_int (stride_g g)) ((real row + 0.5) * real_of_int (stride_g g))
         ((real col + 0.5) * real_of_int (stride_g g)) ((real row + 0.5) * real_of_int (stride_g g)))"
  define shifts where "shifts = concat (map (\<lambda>row. map (\<lambda>col. shift row col) [0..<W]) [0..<H])"
  define tiles where "tiles = map (\<lambda>s. map (\<lambda>a. box_add a s) (anchors_g g)) shifts"
  have st: "stride_g g = stride" by (simp add: g_def AnchorGenerator_init_def Let_def)
  have lenA: "length (anchors_g g) = A" by (simp add: g_def A_def length_anchors_init)
  have "length (anchors_g g) = len g" by (simp add: g_def length_anchors_init len_init)
  from tile_closed [OF this, of H W C]
  have res: "tile_anchors_over_feature_map g (H, W, C) = Inr (concat tiles)"
    by (simp add: tiles_def shifts_def shift_def)
  have uni_s: "\<forall>xs \<in> set (map (\<lambda>row. map (\<lambda>col. shift row col) [0..<W]) [0..<H]). length xs = W"
    by simp
  have len_s: "length shifts = H * W"
    unfolding shifts_def using length_concat_uniform [OF uni_s] by simp
  have uni_t: "\<forall>xs \<in> set tiles. length xs = A" by (simp add: tiles_def lenA)
  have len_t: "length (concat tiles) = H * W * A"
    using length_concat_uniform [OF uni_t] by (simp add: tiles_def len_s)
  have t_nth: "concat tiles ! ((row * W + col) * A + k) =
      Box (bx1 (anchors_g g ! k) + (real col + 0.5) * real_of_int stride)
          (by1 (anchors_g g ! k) + (real row + 0.5) * real_of_int stride)
          (bx2 (anchors_g g ! k) + (real col + 0.5) * real_of_int stride)
          (by2 (anchors_g g ! k) + (real row + 0.5) * real_of_int stride)"
    if row: "row < H" and col: "col < W" and k: "k < A" for row col k
  proof -
    have s_nth: "shifts ! (row * W + col) = shift row col"
      unfolding shifts_def using nth_concat_uniform [OF uni_s, of row col] row col by simp
    have "row * W + col < H * W"
    proof -
      have "row * W + col < row * W + W" using col by simp
      also have "\<dots> = Suc row * W" by simp
      also have "\<dots> \<le> H * W" using row by (intro mult_le_mono1) simp
      finally show ?thesis .
    qed
    then have s: "row * W + col < length tiles" by (simp add: tiles_def len_s)
    have "concat tiles ! ((row * W + col) * A + k) = tiles ! (row * W + col) ! k"
      using nth_concat_uniform [OF uni_t s k] .
    also have "\<dots> = box_add (anchors_g g ! k) (shift row col)"
      using s k lenA s_nth by (simp add: tiles_def)
    finally show ?thesis by (simp add: box_add_def shift_def st)
  qed
  from res len_t t_nth show ?thesis
    unfolding g_def [symmetric] A_def [symmetric] by (simp add: Let_def)
qed

text \<open>
  The level of size 32 and stride 8 with three ratios, on a map of two rows of three:
  canonical anchor 3 is \<open>(-16, -16, 16, 16)\<close> and sits at row 1, column 1, that is at
  index 39, as \<open>(-4, -4, 28, 28)\<close>. A map without rows gives no box.
\<close>

theorem tile_anchors_layout_witness:
  "(\<exists>boxes.
      tile_anchors_over_feature_map (AnchorGenerator_init 32 [0.5, 1, 2] 8) (2, 3, 256)
        = Inr boxes
      \<and> length boxes = 54
      \<and> boxes ! 39 = Box (- 4) (- 4) 28 28)
   \<and> tile_anchors_over_feature_map (AnchorGenerator_init 32 [0.5, 1, 2] 8) (0, 3, 256) = Inr []"
proof -
  from tile_anchors_layout [of 32 "[0.5, 1, 2]" 8 2 3 256] obtain boxes where
    res: "tile_anchors_over_feature_map (AnchorGenerator_init 32 [0.5, 1, 2] 8) (2, 3, 256)
      = Inr boxes"
    and len: "length boxes = 2 * 3 * (length [0.5, 1, 2 :: real] * 3)"
    and nth: "\<forall>row<2. \<forall>col<3. \<forall>k<length [0.5, 1, 2 :: real] * 3.
          boxes ! ((row * 3 + col) * (length [0.5, 1, 2 :: real] * 3) + k) =
            (let a = anchors_g (AnchorGenerator_init 32 [0.5, 1, 2] 8) ! k;
                 sx = (real col + 0.5) * real_of_int 8;
                 sy = (real row + 0.5) * real_of_int 8
             in Box (bx1 a + sx) (by1 a + sy) (bx2 a + sx) (by2 a + sy))"
    by blast
  have "boxes ! ((1 * 3 + 1) * (length [0.5, 1, 2 :: real] * 3) + 3) =
            (let a = anchors_g (AnchorGenerator_init 32 [0.5, 1, 2] 8) ! 3;
                 sx = (real 1 + 0.5) * real_of_int 8;
                 sy = (real 1 + 0.5) * real_of_int 8
             in Box (bx1 a + sx) (by1 a + sy) (bx2 a + sx) (by2 a + sy))"
    by (rule nth [rule_format]) simp_all
  then have "boxes ! 39 = Box (- 4) (- 4) 28 28"
    unfolding canonical_anchor_example Let_def by simp
  with res len have 1: "\<exists>boxes.
      tile_anchors_over_feature_map (AnchorGenerator_init 32 [0.5, 1, 2] 8) (2, 3, 256)
        = Inr boxes
      \<and> length boxes = 54
      \<and> boxes ! 39 = Box (- 4) (- 4) 28 28"
    by simp
  from tile_anchors_layout [of 32 "[0.5, 1, 2]" 8 0 3 256]
  have 2: "tile_anchors_over_feature_map (AnchorGenerator_init 32 [0.5, 1, 2] 8) (0, 3, 256)
      = Inr []"
    by auto
  from 1 2 show ?thesis ..
qed

section \<open>Claims about degenerate anchors\<close>

text \<open>
  C9, as amended. \<open>bbox_transform\<close> raises no error whatever the geometry of the anchors:
  on inputs with one box per anchor it returns a result, and where the width (the height)
  of an anchor is zero, the two components divided by it are infinite or not a number.
  Whether the components are finite where width and height are positive is not stated:
  that depends on the rounding and the range of \<open>float32\<close>.
\<close>

theorem bbox_transform_no_error:
  assumes "\<forall>row \<in> set gt_boxes. length row = length anchors"
    and "b < length gt_boxes" and "n < length anchors"
  shows "\<exists>r. bbox_transform anchors gt_boxes = Inr r
           \<and> (bx2 (anchors ! n) - bx1 (anchors ! n) = 0
              \<longrightarrow> inf_or_nan (r ! b ! n ! 0) \<and> inf_or_nan (r ! b ! n ! 2))
           \<and> (by2 (anchors ! n) - by1 (anchors ! n) = 0
              \<longrightarrow> inf_or_nan (r ! b ! n ! 1) \<and> inf_or_nan (r ! b ! n ! 3))"
proof -
  from bbox_transform_total [OF assms(1)] obtain r where
    r: "bbox_transform anchors gt_boxes = Inr r" ..
  have rn: "r ! b ! n = bbox_transform1 (anchors ! n) (gt_boxes ! b ! n)"
    using bbox_transform_nth [OF assms r] .
  show ?thesis
    using r bbox_transform1_zero_width [of "anchors ! n" "gt_boxes ! b ! n"]
      bbox_transform1_zero_height [of "anchors ! n" "gt_boxes ! b ! n"]
    by (auto simp add: rn)
qed

text \<open>
  An anchor of positive size and the anchor \<open>(5, 5, 5, 5)\<close> of zero width and height; the
  row of the second holds no number.
\<close>

theorem bbox_transform_no_error_witness:
  "\<exists>r. bbox_transform [Box 0 0 10 10, Box 5 5 5 5] [[Box 1 1 9 9, Box 5 1 9 9]] = Inr r
        \<and> r ! 0 ! 1 = [NaN, NInf, PInf, PInf]
        \<and> inf_or_nan (r ! 0 ! 1 ! 0) \<and> inf_or_nan (r ! 0 ! 1 ! 1)
        \<and> inf_or_nan (r ! 0 ! 1 ! 2) \<and> inf_or_nan (r ! 0 ! 1 ! 3)"
proof -
  from bbox_transform_no_error [of "[[Box 1 1 9 9, Box 5 1 9 9]]"
      "[Box 0 0 10 10, Box 5 5 5 5]" 0 1]
  obtain r where r: "bbox_transform [Box 0 0 10 10, Box 5 5 5 5] [[Box 1 1 9 9, Box 5 1 9 9]] = Inr r"
    and z: "inf_or_nan (r ! 0 ! 1 ! 0) \<and> inf_or_nan (r ! 0 ! 1 ! 2)
        \<and> inf_or_nan (r ! 0 ! 1 ! 1) \<and> inf_or_nan (r ! 0 ! 1 ! 3)"
    by auto
  from r have "r ! 0 ! 1 = [NaN, NInf, PInf, PInf]"
    by (auto simp add: bbox_transform_def bbox_transform1_def)
  with r z show ?thesis by blast
qed

text \<open>
  C9 as stated fails: for the anchor \<open>(0, 0, 0, 10)\<close> of width zero the code returns a
  result that holds two infinities, and no error.
\<close>

theorem degenerate_anchor_counterexample:
  "bbox_transform [Box 0 0 0 10] [[Box 1 1 9 9]] = Inr [[[PInf, Fin 0.5, PInf, Fin (- 0.5)]]]"
  by (simp add: bbox_transform_def bbox_transform1_def)

section \<open>Claims about the matcher\<close>

text \<open>
  C2. The claim has the area test read the matched ground-truth box. The code reads the
  anchor at the matched index instead. With the anchors \<open>(0, 0, 10, 10)\<close> and
  \<open>(0, 0, 0.5, 0.5)\<close> and the single ground-truth box \<open>(0, 0, 0.5, 0.5)\<close> of area 0.25,
  both anchors match box 0 and the test reads anchor 0, of area 100: the second anchor is
  positive, and neither is ignored.
\<close>

theorem area_test_reads_anchor_eval:
  "compute_gt_annotations iou [Box 0 0 10 10, Box 0 0 0.5 0.5] [[Box 0 0 0.5 0.5]] 0.4 0.5
     = Inr ([[False, True]], [[False, False]], [(0, 0), (0, 0)])"
  by code_simp

text \<open>
  C6. The claim is about every anchor whose matched ground-truth box is not degenerate.
  The anchor \<open>(0, 0, 10, 10)\<close> overlaps the box \<open>(0, 0, 10, 5)\<close> of area 50 by exactly
  0.5, the positive threshold; the area test reads anchor 0, of area 0.25, so the anchor is
  ignored and not positive.
\<close>

theorem boundary_positive_eval:
  "iou (Box 0 0 10 10) (Box 0 0 10 5) = 0.5
   \<and> box_area (Box 0 0 10 5) = 50
   \<and> compute_gt_annotations iou [Box 0 0 0.5 0.5, Box 0 0 10 10] [[Box 0 0 10 5]] 0.4 0.5
     = Inr ([[False, False]], [[True, True]], [(0, 0), (0, 0)])"
  by code_simp

text \<open>
  C3, as amended. The positive and the ignore mask are disjoint after the matcher and
  after the padding block; after the out-of-image block they are disjoint at every anchor
  whose centre lies left of the image width and above the image height.
\<close>

theorem masks_disjoint:
  assumes cg: "compute_gt_annotations ov anchors bndboxes neg pos = Inr (P, I, idx)"
    and dp: "demote_padding labels bs pad P I idx = Inr (P', I', L)"
    and ex: "expand_out_of_image anchors h w I' = Inr I2"
    and b: "b < length bndboxes" and n: "n < length anchors"
  shows "\<not> (P ! b ! n \<and> I ! b ! n) \<and> \<not> (P' ! b ! n \<and> I' ! b ! n)
         \<and> ((bx1 (anchors ! n) + bx2 (anchors ! n)) / 2 < real w
              \<and> (by1 (anchors ! n) + by2 (anchors ! n)) / 2 < real h
            \<longrightarrow> \<not> (P' ! b ! n \<and> I2 ! b ! n))"
proof -
  note g = compute_gt_annotations_Inr [OF cg]
  have rowP: "\<forall>b<length bndboxes. length (P ! b) = length anchors" using g(5) by simp
  note d = demote_padding_Inr [OF dp g(2) rowP g(4)]
  from g(6) [OF b n] have 1: "\<not> (P ! b ! n \<and> I ! b ! n)" by auto
  with d(7) [OF b n] have 2: "\<not> (P' ! b ! n \<and> I' ! b ! n)" by auto
  from expand_out_of_image_Inr(3) [OF ex, of b n] b n d(3)
  have "I2 ! b ! n = (I' ! b ! n \<or> real w \<le> (bx1 (anchors ! n) + bx2 (anchors ! n)) / 2
                        \<or> real h \<le> (by1 (anchors ! n) + by2 (anchors ! n)) / 2)"
    by simp
  with 1 2 show ?thesis by auto
qed

text \<open>An anchor inside a 50 by 50 image that matches its box exactly.\<close>

theorem masks_disjoint_witness:
  "compute_gt_annotations iou [Box 10 10 30 30] [[Box 10 10 30 30]] 0.4 0.5
     = Inr ([[True]], [[False]], [(0, 0)])
   \<and> demote_padding [[2]] 1 (- 1) [[True]] [[False]] [(0, 0)] = Inr ([[True]], [[False]], [[2]])
   \<and> expand_out_of_image [Box 10 10 30 30] 50 50 [[False]] = Inr [[False]]
   \<and> (bx1 ([Box 10 10 30 30] ! 0) + bx2 ([Box 10 10 30 30] ! 0)) / 2 < real 50
   \<and> (by1 ([Box 10 10 30 30] ! 0) + by2 ([Box 10 10 30 30] ! 0)) / 2 < real 50
   \<and> \<not> ([[True]] ! 0 ! 0 \<and> [[False]] ! 0 ! 0)"
proof -
  have cg: "compute_gt_annotations iou [Box 10 10 30 30] [[Box 10 10 30 30]] 0.4 0.5
     = Inr ([[True]], [[False]], [(0, 0)])"
    by code_simp
  have dp: "demote_padding [[2]] 1 (- 1) [[True]] [[False]] [(0, 0)]
     = Inr ([[True]], [[False]], [[2]])"
    by code_simp
  have ex: "expand_out_of_image [Box 10 10 30 30] 50 50 [[False]] = Inr [[False]]"
    by code_simp
  from masks_disjoint [OF cg dp ex, of 0] cg dp ex show ?thesis by simp
qed

text \<open>
  C3 as stated fails after the out-of-image block: a positive anchor centred at
  \<open>(110, 110)\<close> in a 50 by 50 image stays in the positive mask and enters the ignore mask.
\<close>

theorem masks_overlap_counterexample:
  "compute_gt_annotations iou [Box 100 100 120 120] [[Box 100 100 120 120]] 0.4 0.5
     = Inr ([[True]], [[False]], [(0, 0)])
   \<and> demote_padding [[2]] 1 (- 1) [[True]] [[False]] [(0, 0)] = Inr ([[True]], [[False]], [[2]])
   \<and> expand_out_of_image [Box 100 100 120 120] 50 50 [[False]] = Inr [[True]]"
  by code_simp

section \<open>Claims about the targets\<close>

text \<open>
  C1. The claim has the class row of a background anchor be zero. The anchor
  \<open>(0, 0, 10, 10)\<close> does not overlap the box \<open>(20, 20, 30, 30)\<close> and ends as background
  (state 0); its class row is the one-hot row of class 0.
\<close>

theorem background_class_row_eval:
  "anchor_targets_bbox iou [Box 0 0 10 10] (1, 100, 100, 3) [[Box 20 20 30 30]] [[2]]
       3 (- 1) 0.4 0.5
     = Inr ([[[Fin 10, Fin 10, Fin 10, Fin 10, Fin 0]]], [[[1, 0, 0, 0]]])"
  by code_simp

text \<open>
  C4, as amended. Every anchor whose centre has \<open>cx \<ge> W\<close> or \<open>cy \<ge> H\<close> carries the state
  \<open>-1\<close> in both outputs of \<open>anchor_targets_bbox\<close>, whatever its overlap.
\<close>

theorem out_of_image_ignored:
  assumes at: "anchor_targets_bbox ov anchors (bs, h, w, c) bndboxes labels C pad neg pos
           = Inr (reg, cls)"
    and b: "b < length bndboxes" and n: "n < length anchors"
    and out: "real w \<le> (bx1 (anchors ! n) + bx2 (anchors ! n)) / 2
              \<or> real h \<le> (by1 (anchors ! n) + by2 (anchors ! n)) / 2"
  shows "last (reg ! b ! n) = Fin (- 1) \<and> last (cls ! b ! n) = - 1"
proof -
  from anchor_targets_bbox_stages [OF at] obtain P I idx P' I' L I2 where
    cg: "compute_gt_annotations ov anchors bndboxes neg pos = Inr (P, I, idx)"
    and dp: "demote_padding labels bs pad P I idx = Inr (P', I', L)"
    and ex: "expand_out_of_image anchors h w I' = Inr I2"
    by blast
  note g = compute_gt_annotations_Inr [OF cg]
  have rowP: "\<forall>b<length bndboxes. length (P ! b) = length anchors" using g(5) by simp
  note d = demote_padding_Inr [OF dp g(2) rowP g(4)]
  have "I2 ! b ! n" using expand_out_of_image_Inr(3) [OF ex, of b n] b n out d(3) by simp
  with anchor_targets_bbox_Inr(1,2) [OF at cg dp ex b n] show ?thesis by simp
qed

text \<open>A 50 by 50 image and an anchor centred at \<open>(110, 110)\<close> that matches its box exactly.\<close>

theorem out_of_image_ignored_witness:
  "anchor_targets_bbox iou [Box 100 100 120 120] (1, 50, 50, 3) [[Box 100 100 120 120]] [[2]]
       3 (- 1) 0.4 0.5
     = Inr ([[[Fin 0, Fin 0, Fin 0, Fin 0, Fin (- 1)]]], [[[0, 0, 0, - 1]]])
   \<and> real 50 \<le> (bx1 ([Box 100 100 120 120] ! 0) + bx2 ([Box 100 100 120 120] ! 0)) / 2
   \<and> last ([[[Fin 0, Fin 0, Fin 0, Fin 0, Fin (- 1)]]] ! 0 ! 0) = Fin (- 1)
   \<and> last ([[[0, 0, 0, - 1 :: real]]] ! 0 ! 0) = - 1"
proof -
  have at: "anchor_targets_bbox iou [Box 100 100 120 120] (1, 50, 50, 3)
      [[Box 100 100 120 120]] [[2]] 3 (- 1) 0.4 0.5
     = Inr ([[[Fin 0, Fin 0, Fin 0, Fin 0, Fin (- 1)]]], [[[0, 0, 0, - 1]]])"
    by code_simp
  from out_of_image_ignored [OF at, of 0 0] at show ?thesis by simp
qed

text \<open>
  C4 as stated fails on the low side: an anchor centred at \<open>(-5, -5)\<close> that matches its
  box exactly ends with state 1.
\<close>

theorem out_of_image_counterexample:
  "anchor_targets_bbox iou [Box (- 10) (- 10) 0 0] (1, 50, 50, 3) [[Box (- 10) (- 10) 0 0]] [[2]]
       3 (- 1) 0.4 0.5
     = Inr ([[[Fin 0, Fin 0, Fin 0, Fin 0, Fin 1]]], [[[0, 0, 1, 1]]])"
  by code_simp

text \<open>
  C7. Every anchor whose gathered label equals \<open>padding_value\<close> leaves the positive
  mask, enters the ignore mask and so does not end as foreground; in a batch entry whose
  labels all equal \<open>padding_value\<close> no anchor ends with state 1, every state is 0 or
  \<open>-1\<close>.
\<close>

theorem padding_never_foreground:
  assumes at: "anchor_targets_bbox ov anchors (bs, h, w, c) bndboxes labels C pad neg pos
           = Inr (reg, cls)"
    and cg: "compute_gt_annotations ov anchors bndboxes neg pos = Inr (P, I, idx)"
    and dp: "demote_padding labels bs pad P I idx = Inr (P', I', L)"
    and b: "b < length bndboxes" and n: "n < length anchors"
  shows "L ! b ! n = labels ! b ! matched_index ov (anchors ! n) (bndboxes ! b)
         \<and> (L ! b ! n = pad \<longrightarrow>
              \<not> P' ! b ! n \<and> I' ! b ! n
              \<and> last (reg ! b ! n) = Fin (- 1) \<and> last (cls ! b ! n) = - 1)
         \<and> ((\<forall>l \<in> set (labels ! b). l = pad) \<longrightarrow>
              last (cls ! b ! n) \<noteq> 1 \<and> last (reg ! b ! n) \<noteq> Fin 1
              \<and> (last (cls ! b ! n) = 0 \<or> last (cls ! b ! n) = - 1))"
proof -
  from anchor_targets_bbox_stages [OF at] cg dp obtain I2 where
    ex: "expand_out_of_image anchors h w I' = Inr I2"
    by auto
  note g = compute_gt_annotations_Inr [OF cg]
  have rowP: "\<forall>b<length bndboxes. length (P ! b) = length anchors" using g(5) by simp
  note d = demote_padding_Inr [OF dp g(2) rowP g(4)]
  note gn = g(6) [OF b n]
  note dn = d(7) [OF b n]
  note en = expand_out_of_image_Inr(3) [OF ex, of b n]
  note out = anchor_targets_bbox_Inr [OF at cg dp ex b n]
  have 1: "L ! b ! n = labels ! b ! matched_index ov (anchors ! n) (bndboxes ! b)"
    by (rule out(3))
  have 2: "\<not> P' ! b ! n \<and> I' ! b ! n \<and> last (reg ! b ! n) = Fin (- 1)
      \<and> last (cls ! b ! n) = - 1" if "L ! b ! n = pad"
    using that dn en b n d(3) out(1,2) by simp
  have 3: "L ! b ! n = pad" if "\<forall>l \<in> set (labels ! b). l = pad"
  proof -
    from dn gn have "matched_index ov (anchors ! n) (bndboxes ! b) < length (labels ! b)"
      by simp
    then have "labels ! b ! matched_index ov (anchors ! n) (bndboxes ! b) \<in> set (labels ! b)"
      by (rule nth_mem)
    with that 1 show ?thesis by simp
  qed
  from 1 2 3 show ?thesis by auto
qed

text \<open>Two anchors that match their boxes, both of which are padding slots.\<close>

theorem padding_never_foreground_witness:
  "anchor_targets_bbox iou [Box 0 0 10 10, Box 20 20 30 30] (1, 100, 100, 3)
       [[Box 1 1 9 9, Box 20 20 30 30]] [[- 1, - 1]] 3 (- 1) 0.4 0.5
     = Inr ([[[Fin 0.5, Fin 0.5, Fin (- 0.5), Fin (- 0.5), Fin (- 1)],
              [Fin 0, Fin 0, Fin 0, Fin 0, Fin (- 1)]]],
            [[[0, 0, 0, - 1], [0, 0, 0, - 1]]])
   \<and> compute_gt_annotations iou [Box 0 0 10 10, Box 20 20 30 30]
       [[Box 1 1 9 9, Box 20 20 30 30]] 0.4 0.5
     = Inr ([[True, True]], [[False, False]], [(0, 0), (0, 1)])
   \<and> demote_padding [[- 1, - 1]] 1 (- 1) [[True, True]] [[False, False]] [(0, 0), (0, 1)]
     = Inr ([[False, False]], [[True, True]], [[- 1, - 1]])
   \<and> [[- 1, - 1 :: int]] ! 0 ! 1 = - 1
   \<and> \<not> [[False, False]] ! 0 ! 1 \<and> [[True, True]] ! 0 ! 1
   \<and> last ([[[0, 0, 0, - 1], [0, 0, 0, - 1 :: real]]] ! 0 ! 1) = - 1
   \<and> last ([[[0, 0, 0, - 1], [0, 0, 0, - 1 :: real]]] ! 0 ! 1) \<noteq> 1"
proof -
  have at: "anchor_targets_bbox iou [Box 0 0 10 10, Box 20 20 30 30] (1, 100, 100, 3)
       [[Box 1 1 9 9, Box 20 20 30 30]] [[- 1, - 1]] 3 (- 1) 0.4 0.5
     = Inr ([[[Fin 0.5, Fin 0.5, Fin (- 0.5), Fin (- 0.5), Fin (- 1)],
              [Fin 0, Fin 0, Fin 0, Fin 0, Fin (- 1)]]],
            [[[0, 0, 0, - 1], [0, 0, 0, - 1]]])"
    by code_simp
  have cg: "compute_gt_annotations iou [Box 0 0 10 10, Box 20 20 30 30]
       [[Box 1 1 9 9, Box 20 20 30 30]] 0.4 0.5
     = Inr ([[True, True]], [[False, False]], [(0, 0), (0, 1)])"
    by code_simp
  have dp: "demote_padding [[- 1, - 1]] 1 (- 1) [[True, True]] [[False, False]]
       [(0, 0), (0, 1)]
     = Inr ([[False, False]], [[True, True]], [[- 1, - 1]])"
    by code_simp
  from padding_never_foreground [OF at cg dp, of 0 1] at cg dp show ?thesis by simp
qed

text \<open>
  C10. Wherever the final ignore mask holds, also where the positive mask holds with it,
  the last entry of the regression row and of the class row is \<open>-1\<close> and the first
  \<open>num_classes\<close> entries of the class row are zero; the last entries of the two rows agree
  at every anchor.
\<close>

theorem ignore_dominates_positive:
  assumes at: "anchor_targets_bbox ov anchors (bs, h, w, c) bndboxes labels C pad neg pos
           = Inr (reg, cls)"
    and cg: "compute_gt_annotations ov anchors bndboxes neg pos = Inr (P, I, idx)"
    and dp: "demote_padding labels bs pad P I idx = Inr (P', I', L)"
    and ex: "expand_out_of_image anchors h w I' = Inr I2"
    and b: "b < length bndboxes" and n: "n < length anchors"
  shows "(I2 ! b ! n \<longrightarrow>
            last (reg ! b ! n) = Fin (- 1) \<and> last (cls ! b ! n) = - 1
            \<and> take C (cls ! b ! n) = replicate C 0)
         \<and> last (reg ! b ! n) = Fin (last (cls ! b ! n))
         \<and> length (cls ! b ! n) = C + 1 \<and> length (reg ! b ! n) = 5"
  using anchor_targets_bbox_Inr(1,2) [OF at cg dp ex b n]
  by (simp add: one_hot_negative length_one_hot length_bbox_transform1)

text \<open>A positive anchor centred out of a 50 by 50 image: both masks hold, the state is \<open>-1\<close>.\<close>

theorem ignore_dominates_positive_witness:
  "anchor_targets_bbox iou [Box 100 100 120 120] (1, 50, 50, 3) [[Box 100 100 120 120]] [[2]]
       3 (- 1) 0.4 0.5
     = Inr ([[[Fin 0, Fin 0, Fin 0, Fin 0, Fin (- 1)]]], [[[0, 0, 0, - 1]]])
   \<and> compute_gt_annotations iou [Box 100 100 120 120] [[Box 100 100 120 120]] 0.4 0.5
     = Inr ([[True]], [[False]], [(0, 0)])
   \<and> demote_padding [[2]] 1 (- 1) [[True]] [[False]] [(0, 0)] = Inr ([[True]], [[False]], [[2]])
   \<and> expand_out_of_image [Box 100 100 120 120] 50 50 [[False]] = Inr [[True]]
   \<and> last ([[[Fin 0, Fin 0, Fin 0, Fin 0, Fin (- 1)]]] ! 0 ! 0) = Fin (- 1)
   \<and> last ([[[0, 0, 0, - 1 :: real]]] ! 0 ! 0) = - 1
   \<and> take 3 ([[[0, 0, 0, - 1 :: real]]] ! 0 ! 0) = replicate 3 0"
proof -
  have at: "anchor_targets_bbox iou [Box 100 100 120 120] (1, 50, 50, 3)
      [[Box 100 100 120 120]] [[2]] 3 (- 1) 0.4 0.5
     = Inr ([[[Fin 0, Fin 0, Fin 0, Fin 0, Fin (- 1)]]], [[[0, 0, 0, - 1]]])"
    by code_simp
  have cg: "compute_gt_annotations iou [Box 100 100 120 120] [[Box 100 100 120 120]] 0.4 0.5
     = Inr ([[True]], [[False]], [(0, 0)])"
    by code_simp
  have dp: "demote_padding [[2]] 1 (- 1) [[True]] [[False]] [(0, 0)]
     = Inr ([[True]], [[False]], [[2]])"
    by code_simp
  have ex: "expand_out_of_image [Box 100 100 120 120] 50 50 [[False]] = Inr [[True]]"
    by code_simp
  from ignore_dominates_positive [OF at cg dp ex, of 0 0] at cg dp ex
  show ?thesis by simp
qed

end
